theory Spec2Isabelle
  imports Main "HOL-Library.Sublist"
begin

section \<open>Go library functions used by main.go\<close>

text \<open>
  Go strings are byte sequences; they are modelled as \<open>string\<close> (a list of \<open>char\<close>).
  \<open>strings.HasPrefix s p\<close> is \<open>prefix p s\<close>, and \<open>s[n:]\<close> is \<open>drop n s\<close>.
\<close>

text \<open>\<open>strings.Split(s, sep)\<close> for a separator \<open>sep\<close> of one byte: the pieces of \<open>s\<close>
  between the separators, so one piece more than there are separators (and \<open>[""]\<close> for
  the empty string).\<close>

fun Split :: "string \<Rightarrow> char \<Rightarrow> string list" where
  "Split [] sep = [[]]"
| "Split (c # cs) sep =
     (if c = sep then [] # Split cs sep
      else (case Split cs sep of
              [] \<Rightarrow> [[c]]
            | p # ps \<Rightarrow> (c # p) # ps))"

text \<open>\<open>strconv.Atoi\<close> on a platform whose \<open>int\<close> has 64 bits: an optional sign, then one
  or more decimal digits, and the value must fit. The Go error is a \<open>*NumError\<close> with the
  offending string in \<open>Num\<close>; its \<open>Err\<close> field (syntax or range) is not distinguished
  here.\<close>

datatype error =
    Errorf string  \<comment> \<open>an error made by \<open>fmt.Errorf\<close>, or returned by gx, with that message\<close>
  | NumError string  \<comment> \<open>\<open>*strconv.NumError\<close> of \<open>Atoi\<close> on that string\<close>
  | LoadingDep string string error
      \<comment> \<open>\<open>fmt.Errorf("loading dep %q of %q: %s", dep.Name, pkg.Name, err)\<close>\<close>
  | IndexOutOfRange  \<comment> \<open>the run-time panic of an index beyond the end of a slice\<close>

definition digit :: "char \<Rightarrow> nat option" where
  "digit c = (let n = (of_char c :: nat) in if 48 \<le> n \<and> n \<le> 57 then Some (n - 48) else None)"

fun digits :: "nat \<Rightarrow> string \<Rightarrow> nat option" where
  "digits n [] = Some n"
| "digits n (c # cs) = (case digit c of None \<Rightarrow> None | Some d \<Rightarrow> digits (n * 10 + d) cs)"

definition Atoi :: "string \<Rightarrow> error + int" where
  "Atoi s =
     (let neg = (s \<noteq> [] \<and> hd s = CHR ''-'');
          ds = (if s \<noteq> [] \<and> (hd s = CHR ''-'' \<or> hd s = CHR ''+'') then tl s else s)
      in if ds = [] then Inl (NumError s)
         else (case digits 0 ds of
                 None \<Rightarrow> Inl (NumError s)
               | Some n \<Rightarrow>
                   if neg then (if n > 9223372036854775808 then Inl (NumError s) else Inr (- int n))
                   else (if n \<ge> 9223372036854775808 then Inl (NumError s) else Inr (int n))))"

section \<open>Version Gate: versionComp\<close>

text \<open>The loop \<open>for i, v := range hp\<close> of \<open>versionComp\<close>, reading \<open>rp[i]\<close> beside \<open>v\<close>:
  recursion over both slices in step. Reading \<open>rp[i]\<close> beyond the end of \<open>rp\<close> is a
  panic in Go, here the value \<open>Inl IndexOutOfRange\<close>.\<close>

fun versionComp_loop :: "string list \<Rightarrow> string list \<Rightarrow> error + bool" where
  "versionComp_loop [] rp = Inr False"
| "versionComp_loop (v # hp) rp =
     (case Atoi v of
        Inl err \<Rightarrow> Inl err
      | Inr hv \<Rightarrow>
          (case rp of
             [] \<Rightarrow> Inl IndexOutOfRange
           | r # rp' \<Rightarrow>
               (case Atoi r of
                  Inl err \<Rightarrow> Inl err
                | Inr rv \<Rightarrow>
                    if hv < rv then Inr True
                    else if hv > rv then Inr False
                    else versionComp_loop hp rp')))"

text \<open>The two slices after \<open>hp = hp[:l]\<close> and \<open>rp = rp[:l]\<close>: the retained components.\<close>

definition retained :: "string \<Rightarrow> string \<Rightarrow> string list \<times> string list" where
  "retained have req =
     (let hp = Split have CHR ''.'';
          rp = Split req CHR ''.'';
          l = min (length hp) (length rp)
      in (take l hp, take l rp))"

definition versionComp :: "string \<Rightarrow> string \<Rightarrow> error + bool" where
  "versionComp have req = (case retained have req of (hp, rp) \<Rightarrow> versionComp_loop hp rp)"

text \<open>The specification's order on versions, on the parsed components: strictly less under
  component-wise comparison, the first component that differs deciding.\<close>

fun component_less :: "int list \<Rightarrow> int list \<Rightarrow> bool" where
  "component_less (a # as) (b # bs) = (a < b \<or> (a = b \<and> component_less as bs))"
| "component_less _ _ = False"

section \<open>Paths\<close>

text \<open>\<open>strings.Join(elems, "/")\<close>.\<close>

fun Join_slash :: "string list \<Rightarrow> string" where
  "Join_slash [] = []"
| "Join_slash [e] = e"
| "Join_slash (e # es) = e @ ''/'' @ Join_slash es"

text \<open>The loop of \<open>path.Clean\<close>, element by element instead of byte by byte: \<open>out\<close> holds
  the elements written so far. An empty element and \<open>.\<close> are dropped; \<open>..\<close> removes the
  last element written when there is one to backtrack over (one that is not itself a
  leading \<open>..\<close>), is kept when the path is not rooted, and is dropped at the root.\<close>

fun Clean_loop :: "bool \<Rightarrow> string list \<Rightarrow> string list \<Rightarrow> string list" where
  "Clean_loop rooted [] out = out"
| "Clean_loop rooted (e # es) out =
     (if e = [] \<or> e = ''.'' then Clean_loop rooted es out
      else if e = ''..'' then
        (if out \<noteq> [] \<and> last out \<noteq> ''..'' then Clean_loop rooted es (butlast out)
         else if \<not> rooted then Clean_loop rooted es (out @ [''..''])
         else Clean_loop rooted es out)
      else Clean_loop rooted es (out @ [e]))"

definition Clean :: "string \<Rightarrow> string" where
  "Clean path =
     (if path = [] then ''.''
      else let rooted = (hd path = CHR ''/'');
               out = Clean_loop rooted (Split path CHR ''/'') []
           in if rooted then ''/'' @ Join_slash out
              else if out = [] then ''.''
              else Join_slash out)"

text \<open>\<open>path.Join\<close>, and \<open>filepath.Join\<close> on a Unix system: the elements from the first
  non-empty one on, joined with slashes and cleaned; the empty string when all are
  empty.\<close>

definition Join :: "string list \<Rightarrow> string" where
  "Join elem =
     (case dropWhile (\<lambda>e. e = []) elem of
        [] \<Rightarrow> []
      | es \<Rightarrow> Clean (Join_slash es))"

text \<open>\<open>filepath.SplitList\<close> on a Unix system.\<close>

definition SplitList :: "string \<Rightarrow> string list" where
  "SplitList path = (if path = [] then [] else Split path CHR '':'')"

text \<open>\<open>strings.Replace(s, old, new, 1)\<close>: the first occurrence of \<open>old\<close> in \<open>s\<close> is
  replaced by \<open>new\<close>; an empty \<open>old\<close> matches at the beginning.\<close>

fun Replace1 :: "string \<Rightarrow> string \<Rightarrow> string \<Rightarrow> string" where
  "Replace1 [] old new = (if old = [] then new else [])"
| "Replace1 (c # cs) old new =
     (if prefix old (c # cs) then new @ drop (length old) (c # cs)
      else c # Replace1 cs old new)"

section \<open>Data model and environment\<close>

text \<open>The fields of \<open>gx.Dependency\<close> and of \<open>Package\<close> (with its embedded
  \<open>gx.PackageBase\<close>) that main.go reads. \<open>DepName\<close> is the field \<open>Name\<close> of a
  dependency, renamed to keep it apart from the \<open>Name\<close> of a package.\<close>

record Dependency =
  DepName :: string
  Hash :: string
  Version :: string

record GoInfo =
  DvcsImport :: string
  GoVersion :: string

record Package =
  Name :: string
  Dependencies :: "Dependency list"
  Gx :: GoInfo

text \<open>What the process reads from outside: the environment variable \<open>GOPATH\<close> (the
  empty string when unset, as \<open>os.Getenv\<close> returns it) and the global variable \<open>cwd\<close>
  that \<open>main\<close> sets once.\<close>

record env =
  GOPATH :: string
  cwd :: string

text \<open>\<open>gx.FindPackageInDir(&pkg, dir)\<close> is a function of the file system: for a
  directory, either the message of the error it returns or the package it decodes
  (into a fresh \<open>Package\<close>).\<close>

type_synonym finder = "string \<Rightarrow> string + Package"

text \<open>A call of \<open>Log\<close> or \<open>VLog\<close> (package stump) with its format and arguments; the
  output of a run is the list of these calls in order.\<close>

datatype logcall = Log string "string list" | VLog string "string list"

type_synonym table = "string \<rightharpoonup> string"

type_synonym state = "table \<times> logcall list"


definition getGoPath :: "env \<Rightarrow> error + string" where
  "getGoPath e =
     (let gp = GOPATH e
      in if gp = [] then Inl (Errorf ''GOPATH not set'')
         else (case SplitList gp of
                 [] \<Rightarrow> Inl IndexOutOfRange
               | p # _ \<Rightarrow> Inr p))"

section \<open>Path Resolver: getImportPath and packagesGoImport\<close>

definition getImportPath :: "env \<Rightarrow> string \<Rightarrow> error + string" where
  "getImportPath e pkgpath =
     (case getGoPath e of
        Inl err \<Rightarrow> Inl (Errorf ''GOPATH not set, cannot derive import path'')
      | Inr gopath \<Rightarrow>
          (let srcdir = Join [gopath, ''src''] @ ''/''
           in if \<not> prefix srcdir (cwd e) then Inl (Errorf ''package not within GOPATH/src'')
              else Inr (drop (length srcdir) (cwd e))))"

definition packagesGoImport :: "env \<Rightarrow> string \<Rightarrow> error + string" where
  "packagesGoImport e p =
     (case getGoPath e of
        Inl err \<Rightarrow> Inl err
      | Inr gopath \<Rightarrow>
          (let srcdir = Join [gopath, ''src''] @ ''/''
           in if \<not> prefix srcdir p then Inl (Errorf ''package not within GOPATH/src'')
              else Inr (drop (length srcdir) p)))"

section \<open>Dependency Loader: loadDep\<close>

definition globalPath :: "env \<Rightarrow> string" where
  "globalPath e =
     (let gp = (case getGoPath e of Inl _ \<Rightarrow> [] | Inr g \<Rightarrow> g)
      in Join [gp, ''src'', ''gx'', ''ipfs''])"

text \<open>\<open>loadDep\<close> returns the package or the error, and appends its two \<open>VLog\<close> calls to
  the output. The error of the first lookup is dropped; both lookups decode into the
  same variable \<open>cpkg\<close>, which the model takes to hold the result of the second lookup
  alone when the first one failed.\<close>

definition loadDep ::
  "finder \<Rightarrow> env \<Rightarrow> Dependency \<Rightarrow> string \<Rightarrow> logcall list \<Rightarrow> (error + Package) \<times> logcall list"
where
  "loadDep fs e dep pkgdir out =
     (let pdir = Join [pkgdir, Hash dep];
          out1 = out @ [VLog ''  - fetching dep: %s (%s)'' [DepName dep, Hash dep]]
      in case fs pdir of
           Inr cpkg \<Rightarrow> (Inr cpkg, out1)
         | Inl err \<Rightarrow>
             (let p = Join [globalPath e, Hash dep];
                  out2 = out1 @ [VLog ''  - checking in global namespace (%s)'' [p]]
              in case fs p of
                   Inl gerr \<Rightarrow> (Inl (Errorf (''failed to find package: '' @ gerr)), out2)
                 | Inr cpkg \<Rightarrow> (Inr cpkg, out2)))"

section \<open>Rewrite Table Builder: addRewriteForDep, buildRewriteMapping, buildMap\<close>

definition addRewriteForDep :: "Dependency \<Rightarrow> Package \<Rightarrow> table \<Rightarrow> bool \<Rightarrow> table" where
  "addRewriteForDep dep pkg m undo =
     (if DvcsImport (Gx pkg) \<noteq> [] then
        (let from = DvcsImport (Gx pkg);
             to = ''gx/ipfs/'' @ Hash dep @ ''/'' @ Name pkg
         in if undo then m(to \<mapsto> from) else m(from \<mapsto> to))
      else m)"

text \<open>The recursion of \<open>buildRewriteMapping\<close> follows the dependency graph that the file
  system describes, which need not be finite in depth; the first argument bounds the
  depth of the recursion, and \<open>None\<close> says that the bound was reached. The map \<open>m\<close> is
  mutated in place in Go: the state is returned also when the function fails.
  \<open>buildRewriteMapping_loop\<close> is the \<open>for\<close> loop over the dependencies still to visit.\<close>

fun buildRewriteMapping ::
      "nat \<Rightarrow> finder \<Rightarrow> env \<Rightarrow> Package \<Rightarrow> string \<Rightarrow> state \<Rightarrow> bool \<Rightarrow> ((error + unit) \<times> state) option"
  and buildRewriteMapping_loop ::
      "nat \<Rightarrow> finder \<Rightarrow> env \<Rightarrow> Package \<Rightarrow> Dependency list \<Rightarrow> string \<Rightarrow> state \<Rightarrow> bool
         \<Rightarrow> ((error + unit) \<times> state) option"
where
  "buildRewriteMapping 0 fs e pkg pkgdir st undo = None"
| "buildRewriteMapping (Suc n) fs e pkg pkgdir st undo =
     buildRewriteMapping_loop n fs e pkg (Dependencies pkg) pkgdir st undo"
| "buildRewriteMapping_loop n fs e pkg [] pkgdir st undo = Some (Inr (), st)"
| "buildRewriteMapping_loop n fs e pkg (dep # deps) pkgdir (m, out) undo =
     (case loadDep fs e dep pkgdir out of
        (Inl err, out') \<Rightarrow> Some (Inl (LoadingDep (DepName dep) (Name pkg) err), (m, out'))
      | (Inr cpkg, out') \<Rightarrow>
          (case buildRewriteMapping n fs e cpkg pkgdir (addRewriteForDep dep cpkg m undo, out') undo of
             None \<Rightarrow> None
           | Some (Inl err, st') \<Rightarrow> Some (Inl err, st')
           | Some (Inr u, st') \<Rightarrow> buildRewriteMapping_loop n fs e pkg deps pkgdir st' undo))"


section \<open>Rewrite Applier: the lookup function of doRewrite\<close>

text \<open>The loop \<open>for k, v := range mapping\<close> inside \<open>rwm\<close>. Go leaves the order in which a
  map is ranged over unspecified, and it changes from one loop to the next: the order of
  this loop is the argument \<open>ks\<close>, an enumeration of the keys. The loop returns at the
  first key it visits that matches; \<open>None\<close> says that it ran to its end. The
  argument \<open>inp\<close> is the parameter \<open>in\<close> of the Go closure.\<close>

fun rwm_range :: "string list \<Rightarrow> table \<Rightarrow> string \<Rightarrow> (string \<times> table) option" where
  "rwm_range [] mapping inp = None"
| "rwm_range (k # ks) mapping inp =
     (case mapping k of
        None \<Rightarrow> rwm_range ks mapping inp
      | Some v \<Rightarrow>
          if prefix (k @ ''/'') inp then
            (let nmapping = Replace1 inp k v in Some (nmapping, mapping(inp \<mapsto> nmapping)))
          else rwm_range ks mapping inp)"

definition rwm :: "string list \<Rightarrow> table \<Rightarrow> string \<Rightarrow> string \<times> table" where
  "rwm ks mapping inp =
     (case mapping inp of
        Some m \<Rightarrow> (m, mapping)
      | None \<Rightarrow>
          (case rwm_range ks mapping inp of
             Some r \<Rightarrow> r
           | None \<Rightarrow> (inp, mapping(inp \<mapsto> inp))))"

section \<open>The scenarios of the specification\<close>

text \<open>The dependency trees that the specification's testable properties describe, as
  inputs of the functions above: an environment, a file system in which three hash
  directories of the vendor directory hold a package, and three root packages.\<close>

definition scenario_env :: env where
  "scenario_env = \<lparr>GOPATH = ''/go'', cwd = ''/proj''\<rparr>"

definition pkg_y :: Package where
  "pkg_y = \<lparr>Name = ''y'', Dependencies = [],
            Gx = \<lparr>DvcsImport = ''github.com/x/y'', GoVersion = []\<rparr>\<rparr>"

definition pkg_b :: Package where
  "pkg_b = \<lparr>Name = ''b'', Dependencies = [],
            Gx = \<lparr>DvcsImport = ''github.com/a/b'', GoVersion = []\<rparr>\<rparr>"

definition scenario_fs :: finder where
  "scenario_fs dir =
     (if dir = ''vendor/gx/ipfs/Qm123'' then Inr pkg_y
      else if dir = ''vendor/gx/ipfs/Qm1'' \<or> dir = ''vendor/gx/ipfs/Qm2'' then Inr pkg_b
      else Inl (''open '' @ dir @ '': no such file or directory''))"



text \<open>Failure: a dependency that loads, then one that is in neither location.\<close>

definition failing_root :: Package where
  "failing_root =
     \<lparr>Name = ''P'',
      Dependencies = [\<lparr>DepName = ''b'', Hash = ''Qm1'', Version = ''1.0.0''\<rparr>,
                      \<lparr>DepName = ''c'', Hash = ''Qm3'', Version = ''1.0.0''\<rparr>],
      Gx = \<lparr>DvcsImport = [], GoVersion = []\<rparr>\<rparr>"

section \<open>Properties of the Version Gate\<close>

lemma Split_not_Nil: "Split s c \<noteq> []"
  by (induction s) (auto split: list.splits)

lemma retained_length: "retained have req = (hp, rp) \<Longrightarrow> length hp = length rp"
  by (auto simp: retained_def Let_def)


lemma component_less_lexord:
  "length xs = length ys \<Longrightarrow> component_less xs ys \<longleftrightarrow> (xs, ys) \<in> lexord {(a, b). a < b}"
  by (induction xs ys rule: list_induct2) auto

lemma versionComp_loop_error:
  "length hp = length rp \<Longrightarrow>
   isl (versionComp_loop hp rp) \<longleftrightarrow>
     (\<exists>i<length hp. (\<forall>j<i. \<exists>n. Atoi (hp ! j) = Inr n \<and> Atoi (rp ! j) = Inr n)
        \<and> (isl (Atoi (hp ! i)) \<or> isl (Atoi (rp ! i))))"
proof (induction hp rp rule: list_induct2)
  case Nil
  then show ?case by simp
next
  case (Cons v hp r rp)
  let ?P = "\<lambda>hp rp i. (\<forall>j<i. \<exists>n. Atoi (hp ! j) = Inr n \<and> Atoi (rp ! j) = Inr n)
        \<and> (isl (Atoi (hp ! i)) \<or> isl (Atoi (rp ! i)))"
  show ?case
  proof (cases "isl (Atoi v) \<or> isl (Atoi r)")
    case True
    then have "?P (v # hp) (r # rp) 0" by simp
    then have "\<exists>i<length (v # hp). ?P (v # hp) (r # rp) i" by (intro exI [of _ 0]) simp
    moreover from True have "isl (versionComp_loop (v # hp) (r # rp))"
      by (auto split: sum.splits)
    ultimately show ?thesis by blast
  next
    case False
    then obtain a b where ab: "Atoi v = Inr a" "Atoi r = Inr b"
      by (cases "Atoi v"; cases "Atoi r") auto
    show ?thesis
    proof (cases "a = b")
      case True
      have "(\<exists>i<length (v # hp). ?P (v # hp) (r # rp) i) \<longleftrightarrow> (\<exists>i<length hp. ?P hp rp i)"
      proof
        assume "\<exists>i<length (v # hp). ?P (v # hp) (r # rp) i"
        then obtain i where i: "i < length (v # hp)" "?P (v # hp) (r # rp) i" by blast
        with ab have "i \<noteq> 0" by (cases "i = 0") auto
        then obtain k where k: "i = Suc k" by (cases i) auto
        from i k have "?P hp rp k" by (auto dest: spec [of _ "Suc _"])
        with i k show "\<exists>i<length hp. ?P hp rp i" by auto
      next
        assume "\<exists>i<length hp. ?P hp rp i"
        then obtain k where k: "k < length hp" "?P hp rp k" by blast
        with ab True have "?P (v # hp) (r # rp) (Suc k)"
          by (auto simp: less_Suc_eq_0_disj)
        with k show "\<exists>i<length (v # hp). ?P (v # hp) (r # rp) i"
          by (intro exI [of _ "Suc k"]) simp
      qed
      with Cons.IH ab True show ?thesis by simp
    next
      case False
      have "\<not> (\<exists>i<length (v # hp). ?P (v # hp) (r # rp) i)"
      proof
        assume "\<exists>i<length (v # hp). ?P (v # hp) (r # rp) i"
        then obtain i where i: "i < length (v # hp)" "?P (v # hp) (r # rp) i" by blast
        with ab have "i \<noteq> 0" by (cases "i = 0") auto
        with i have "\<exists>n. Atoi ((v # hp) ! 0) = Inr n \<and> Atoi ((r # rp) ! 0) = Inr n" by blast
        with ab False show False by simp
      qed
      moreover from ab False have "\<not> isl (versionComp_loop (v # hp) (r # rp))" by auto
      ultimately show ?thesis by blast
    qed
  qed
qed

lemma Atoi_error: "Atoi s = Inl err \<Longrightarrow> err = NumError s"
  by (auto simp: Atoi_def Let_def split: if_splits option.splits)

lemma versionComp_loop_error_value:
  "length hp = length rp \<Longrightarrow> versionComp_loop hp rp = Inl err
     \<Longrightarrow> \<exists>c\<in>set hp \<union> set rp. err = NumError c \<and> isl (Atoi c)"
proof (induction hp rp rule: list_induct2)
  case Nil
  then show ?case by simp
next
  case (Cons v hp r rp)
  show ?case
  proof (cases "Atoi v")
    case (Inl e)
    with Cons.prems Atoi_error [OF Inl] show ?thesis by auto
  next
    case a: (Inr a)
    show ?thesis
    proof (cases "Atoi r")
      case (Inl e)
      with Cons.prems a Atoi_error [OF Inl] show ?thesis by auto
    next
      case (Inr b)
      with Cons.prems a have "versionComp_loop hp rp = Inl err"
        by (auto split: if_splits)
      with Cons.IH show ?thesis by auto
    qed
  qed
qed

lemmas version_eval = versionComp_def retained_def Atoi_def digit_def Let_def



text \<open>
  C8, as stated, fails: the loop returns at the first position where the two versions
  differ, so a retained component behind that position is never parsed; and \<open>Atoi\<close>
  accepts a sign, so a negative component parses.
\<close>

theorem versionComp_unparsed_component_counterexample:
  "retained ''1.x'' ''2.0'' = ([''1'', ''x''], [''2'', ''0''])
   \<and> Atoi ''x'' = Inl (NumError ''x'')
   \<and> versionComp ''1.x'' ''2.0'' = Inr True
   \<and> Atoi ''-1'' = Inr (- 1)
   \<and> versionComp ''-1'' ''0'' = Inr True"
  by (simp add: version_eval)

text \<open>
  C8, amended. \<open>versionComp have req\<close> fails exactly when there is a retained position
  \<open>i\<close> such that the components before \<open>i\<close> all parse and are pairwise equal, and the
  component of \<open>have\<close> or of \<open>req\<close> at \<open>i\<close> is not accepted by \<open>Atoi\<close> (an optionally
  signed decimal integer that fits an \<open>int\<close>); the error is then the \<open>NumError\<close> of a
  retained component that does not parse.
\<close>

theorem versionComp_error_iff:
  assumes "retained have req = (hp, rp)"
  shows "(isl (versionComp have req) \<longleftrightarrow>
           (\<exists>i<length hp. (\<forall>j<i. \<exists>n. Atoi (hp ! j) = Inr n \<and> Atoi (rp ! j) = Inr n)
              \<and> (isl (Atoi (hp ! i)) \<or> isl (Atoi (rp ! i)))))
         \<and> (\<forall>err. versionComp have req = Inl err
               \<longrightarrow> (\<exists>c\<in>set hp \<union> set rp. err = NumError c \<and> isl (Atoi c)))"
  using assms versionComp_loop_error [of hp rp] versionComp_loop_error_value [of hp rp]
    retained_length [of "have" req hp rp]
  by (simp add: versionComp_def)

theorem versionComp_error_iff_witness:
  "retained ''1.x'' ''1.0'' = ([''1'', ''x''], [''1'', ''0''])
   \<and> (\<exists>i<length [''1'', ''x''].
         (\<forall>j<i. \<exists>n. Atoi ([''1'', ''x''] ! j) = Inr n \<and> Atoi ([''1'', ''0''] ! j) = Inr n)
         \<and> (isl (Atoi ([''1'', ''x''] ! i)) \<or> isl (Atoi ([''1'', ''0''] ! i))))
   \<and> isl (versionComp ''1.x'' ''1.0'')
   \<and> versionComp ''1.x'' ''1.0'' = Inl (NumError ''x'')"
proof -
  have r: "retained ''1.x'' ''1.0'' = ([''1'', ''x''], [''1'', ''0''])"
    by (simp add: retained_def Let_def)
  have ex: "\<exists>i<length [''1'', ''x''].
         (\<forall>j<i. \<exists>n. Atoi ([''1'', ''x''] ! j) = Inr n \<and> Atoi ([''1'', ''0''] ! j) = Inr n)
         \<and> (isl (Atoi ([''1'', ''x''] ! i)) \<or> isl (Atoi ([''1'', ''0''] ! i)))"
    by (rule exI [of _ 1]) (simp add: Atoi_def digit_def)
  from versionComp_error_iff [OF r] ex have "isl (versionComp ''1.x'' ''1.0'')" by blast
  moreover have "versionComp ''1.x'' ''1.0'' = Inl (NumError ''x'')"
    by (simp add: version_eval)
  ultimately show ?thesis using r ex by blast
qed

section \<open>Properties of the Path Resolver\<close>

lemmas path_eval = Join_def Clean_def SplitList_def getGoPath_def globalPath_def Let_def

text \<open>The index \<open>[0]\<close> in \<open>getGoPath\<close> is always in range: a non-empty \<open>GOPATH\<close> splits
  into at least one entry.\<close>

lemma getGoPath_no_panic: "getGoPath e \<noteq> Inl IndexOutOfRange"
  using Split_not_Nil [of "GOPATH e" "CHR '':''"]
  by (auto simp: getGoPath_def SplitList_def Let_def split: list.splits)

lemma Split_append_sep: "Split (s @ c # t) c = Split s c @ Split t c"
  by (induction s) (auto split: list.splits simp: Split_not_Nil)

lemma Clean_loop_snoc:
  "e \<noteq> [] \<Longrightarrow> e \<noteq> ''.'' \<Longrightarrow> e \<noteq> ''..''
     \<Longrightarrow> Clean_loop rooted (es @ [e]) out = Clean_loop rooted es out @ [e]"
  by (induction es arbitrary: out) auto

lemma Join_slash_snoc:
  "Join_slash (out @ [e]) = (if out = [] then e else Join_slash out @ ''/'' @ e)"
  by (induction out rule: Join_slash.induct) auto

lemma Join_src_clean:
  assumes "Clean g \<noteq> ''/''" "Clean g \<noteq> ''.''"
  shows "Join [g, ''src''] = Clean g @ ''/src''"
proof -
  from assms have g: "g \<noteq> []" by (auto simp: Clean_def)
  let ?r = "hd g = CHR ''/''"
  let ?out = "Clean_loop ?r (Split g CHR ''/'') []"
  have split: "Split (g @ ''/src'') CHR ''/'' = Split g CHR ''/'' @ [''src'']"
    using Split_append_sep [of g "CHR ''/''" "''src''"] by simp
  from assms g have out: "?out \<noteq> []"
    by (cases ?r) (auto simp: Clean_def Let_def split: if_splits)
  from g have "Join [g, ''src''] = Clean (g @ ''/src'')" by (simp add: Join_def)
  also from g have "\<dots> = (if ?r then ''/'' @ Join_slash (?out @ [''src'']) else Join_slash (?out @ [''src'']))"
    by (cases ?r) (simp_all add: Clean_def Let_def split Clean_loop_snoc)
  also from out have "\<dots> = (if ?r then ''/'' @ Join_slash ?out else Join_slash ?out) @ ''/src''"
    by (cases ?r) (simp_all add: Join_slash_snoc)
  also from g out have "(if ?r then ''/'' @ Join_slash ?out else Join_slash ?out) = Clean g"
    by (cases ?r) (simp_all add: Clean_def Let_def)
  finally show ?thesis .
qed

text \<open>
  C6, as stated, fails: the prefix that is tested is \<open>path.Join(sourceRoot, "src") + "/"\<close>,
  which is cleaned; with the trailing slash of \<open>GOPATH=/go/\<close> a path that does not begin
  with \<open>sourceRoot + "/src/"\<close> is accepted.
\<close>

theorem packagesGoImport_trailing_slash_counterexample:
  "getGoPath \<lparr>GOPATH = ''/go/'', cwd = ''/go/src/github.com/x/y''\<rparr> = Inr ''/go/''
   \<and> \<not> prefix (''/go/'' @ ''/src/'') ''/go/src/github.com/x/y''
   \<and> packagesGoImport \<lparr>GOPATH = ''/go/'', cwd = ''/go/src/github.com/x/y''\<rparr> ''/go/src/github.com/x/y''
       = Inr ''github.com/x/y''
   \<and> getImportPath \<lparr>GOPATH = ''/go/'', cwd = ''/go/src/github.com/x/y''\<rparr> ''/go/src/github.com/x/y''
       = Inr ''github.com/x/y''"
  by (simp add: packagesGoImport_def getImportPath_def path_eval)

text \<open>
  C6, amended. With the source root \<open>sourceRoot\<close> that \<open>getGoPath\<close> returns,
  \<open>packagesGoImport p\<close> fails with the error "package not within GOPATH/src" if \<open>p\<close> does
  not begin with \<open>path.Join(sourceRoot, "src") + "/"\<close>, and otherwise returns the suffix
  of \<open>p\<close> after that prefix; \<open>getImportPath\<close> does the same on the working directory.
  That prefix is \<open>Clean(sourceRoot) + "/src/"\<close>, hence \<open>sourceRoot + "/src/"\<close> for a clean
  source root, unless the cleaned root is \<open>/\<close> or \<open>.\<close>.
\<close>

theorem packagesGoImport_under_root:
  assumes "getGoPath e = Inr sourceRoot"
  shows "(\<not> prefix (Join [sourceRoot, ''src''] @ ''/'') p
            \<longrightarrow> packagesGoImport e p = Inl (Errorf ''package not within GOPATH/src''))
       \<and> (\<forall>rel. packagesGoImport e p = Inr rel \<longleftrightarrow> p = Join [sourceRoot, ''src''] @ ''/'' @ rel)
       \<and> getImportPath e pkgpath = packagesGoImport e (cwd e)
       \<and> (Clean sourceRoot \<noteq> ''/'' \<and> Clean sourceRoot \<noteq> ''.''
            \<longrightarrow> Join [sourceRoot, ''src''] @ ''/'' = Clean sourceRoot @ ''/src/'')"
proof -
  let ?srcdir = "Join [sourceRoot, ''src''] @ ''/''"
  have a: "\<not> prefix ?srcdir p \<longrightarrow> packagesGoImport e p = Inl (Errorf ''package not within GOPATH/src'')"
    using assms by (simp add: packagesGoImport_def Let_def)
  have b: "packagesGoImport e p = Inr rel \<longleftrightarrow> p = ?srcdir @ rel" for rel
  proof
    assume "packagesGoImport e p = Inr rel"
    with assms have "prefix ?srcdir p" "rel = drop (length ?srcdir) p"
      by (auto simp: packagesGoImport_def Let_def split: if_splits)
    then show "p = ?srcdir @ rel" by (metis append_eq_conv_conj prefixE)
  next
    assume "p = ?srcdir @ rel"
    with assms show "packagesGoImport e p = Inr rel"
      by (simp add: packagesGoImport_def Let_def)
  qed
  have c: "getImportPath e pkgpath = packagesGoImport e (cwd e)"
    using assms by (simp add: getImportPath_def packagesGoImport_def)
  have d: "Clean sourceRoot \<noteq> ''/'' \<and> Clean sourceRoot \<noteq> ''.''
            \<longrightarrow> ?srcdir = Clean sourceRoot @ ''/src/''"
    using Join_src_clean [of sourceRoot] by simp
  from a b c d show ?thesis by simp
qed

theorem packagesGoImport_under_root_witness:
  "getGoPath \<lparr>GOPATH = ''/go:/other'', cwd = ''/tmp''\<rparr> = Inr ''/go''
   \<and> \<not> prefix (Join [''/go'', ''src''] @ ''/'') ''/home/me/y''
   \<and> packagesGoImport \<lparr>GOPATH = ''/go:/other'', cwd = ''/tmp''\<rparr> ''/home/me/y''
        = Inl (Errorf ''package not within GOPATH/src'')
   \<and> packagesGoImport \<lparr>GOPATH = ''/go:/other'', cwd = ''/tmp''\<rparr> ''/go/src/github.com/x/y''
        = Inr ''github.com/x/y''
   \<and> Clean ''/go'' \<noteq> ''/'' \<and> Clean ''/go'' \<noteq> ''.''
   \<and> Join [''/go'', ''src''] @ ''/'' = ''/go/src/''"
proof -
  let ?e = "\<lparr>GOPATH = ''/go:/other'', cwd = ''/tmp''\<rparr>"
  have g: "getGoPath ?e = Inr ''/go''" by (simp add: path_eval)
  have n: "\<not> prefix (Join [''/go'', ''src''] @ ''/'') ''/home/me/y''" by (simp add: path_eval)
  have c: "Clean ''/go'' \<noteq> ''/'' \<and> Clean ''/go'' \<noteq> ''.''" by (simp add: path_eval)
  have j: "''/go/src/github.com/x/y'' = Join [''/go'', ''src''] @ ''/'' @ ''github.com/x/y''"
    by (simp add: path_eval)
  note t1 = packagesGoImport_under_root [OF g, of "''/home/me/y''"]
  note t2 = packagesGoImport_under_root [OF g, of "''/go/src/github.com/x/y''"]
  from t1 n have r1: "packagesGoImport ?e ''/home/me/y'' = Inl (Errorf ''package not within GOPATH/src'')"
    by blast
  from t2 j have r2: "packagesGoImport ?e ''/go/src/github.com/x/y'' = Inr ''github.com/x/y''"
    by blast
  from t1 c have r3: "Join [''/go'', ''src''] @ ''/'' = Clean ''/go'' @ ''/src/''" by blast
  have "Clean ''/go'' = ''/go''" by (simp add: path_eval)
  with g n r1 r2 r3 c show ?thesis by simp
qed

text \<open>
  C9. The result of \<open>getImportPath\<close> does not depend on its argument \<open>pkgpath\<close>: in one
  environment (working directory and \<open>GOPATH\<close>) any two arguments give the same result.
\<close>

theorem getImportPath_ignores_pkgpath:
  "getImportPath e p1 = getImportPath e p2"
  by (simp add: getImportPath_def)

section \<open>Properties of the Dependency Loader\<close>

text \<open>
  C4, as stated, fails in its last part: when both lookups fail, the error of \<open>loadDep\<close>
  is made from the error of the second lookup alone. Here each lookup fails with an
  error that names the directory it was given; the error of \<open>loadDep\<close> names the global
  location, and neither the local location nor the name of the dependency. The name
  is in the first line of the verbose log only.
\<close>

theorem loadDep_error_counterexample:
  "loadDep (\<lambda>dir. Inl (''open '' @ dir @ '': no such file or directory''))
          \<lparr>GOPATH = ''/go'', cwd = ''/proj''\<rparr>
          \<lparr>DepName = ''foo'', Hash = ''Qm1'', Version = ''1.0.0''\<rparr>
          ''/proj/vendor/gx/ipfs'' []
     = (Inl (Errorf ''failed to find package: open /go/src/gx/ipfs/Qm1: no such file or directory''),
        [VLog ''  - fetching dep: %s (%s)'' [''foo'', ''Qm1''],
         VLog ''  - checking in global namespace (%s)'' [''/go/src/gx/ipfs/Qm1'']])
   \<and> Join [''/proj/vendor/gx/ipfs'', ''Qm1''] = ''/proj/vendor/gx/ipfs/Qm1''
   \<and> \<not> sublist ''/proj/vendor/gx/ipfs/Qm1''
          ''failed to find package: open /go/src/gx/ipfs/Qm1: no such file or directory''
   \<and> \<not> sublist ''foo''
          ''failed to find package: open /go/src/gx/ipfs/Qm1: no such file or directory''"
  by (simp add: loadDep_def path_eval sublist_Cons_right)

text \<open>
  C4, amended. \<open>loadDep\<close> first looks for the descriptor under
  \<open>filepath.Join(pkgdir, hash)\<close>; when that lookup fails, for whatever reason, it looks
  under \<open>filepath.Join(globalPath(), hash)\<close>, a location that does not depend on
  \<open>pkgdir\<close>; a dependency absent locally and present there loads successfully; when
  both lookups fail the error is "failed to find package: " followed by the error of
  the second lookup, whatever the first error, the local location and the name of the
  dependency are. What \<open>loadDep\<close> writes is the verbose log: a first line with the name
  and the hash of the dependency, always, and after a failed first lookup a second line
  with the global location. The caller \<open>buildRewriteMapping\<close> returns the error of
  \<open>loadDep\<close> wrapped with the name of the dependency and the name of the parent
  package, and leaves the table as it was before this dependency.
\<close>

theorem loadDep_two_tier:
  "(\<forall>cpkg. fs (Join [pkgdir, Hash dep]) = Inr cpkg
       \<longrightarrow> loadDep fs e dep pkgdir out
             = (Inr cpkg, out @ [VLog ''  - fetching dep: %s (%s)'' [DepName dep, Hash dep]]))
   \<and> (\<forall>err cpkg. fs (Join [pkgdir, Hash dep]) = Inl err
          \<and> fs (Join [globalPath e, Hash dep]) = Inr cpkg
       \<longrightarrow> loadDep fs e dep pkgdir out
             = (Inr cpkg,
                out @ [VLog ''  - fetching dep: %s (%s)'' [DepName dep, Hash dep],
                       VLog ''  - checking in global namespace (%s)'' [Join [globalPath e, Hash dep]]]))
   \<and> (\<forall>err gerr. fs (Join [pkgdir, Hash dep]) = Inl err
          \<and> fs (Join [globalPath e, Hash dep]) = Inl gerr
       \<longrightarrow> loadDep fs e dep pkgdir out
             = (Inl (Errorf (''failed to find package: '' @ gerr)),
                out @ [VLog ''  - fetching dep: %s (%s)'' [DepName dep, Hash dep],
                       VLog ''  - checking in global namespace (%s)'' [Join [globalPath e, Hash dep]]])
         \<and> buildRewriteMapping_loop n fs e pkg (dep # deps) pkgdir (m, out) undo
             = Some (Inl (LoadingDep (DepName dep) (Name pkg)
                            (Errorf (''failed to find package: '' @ gerr))),
                     (m, out @ [VLog ''  - fetching dep: %s (%s)'' [DepName dep, Hash dep],
                                VLog ''  - checking in global namespace (%s)''
                                  [Join [globalPath e, Hash dep]]])))"
proof -
  have found: "loadDep fs e dep pkgdir out
             = (Inr cpkg, out @ [VLog ''  - fetching dep: %s (%s)'' [DepName dep, Hash dep]])"
    if "fs (Join [pkgdir, Hash dep]) = Inr cpkg" for cpkg
    using that by (simp add: loadDep_def Let_def)
  have fallback: "loadDep fs e dep pkgdir out
             = (Inr cpkg,
                out @ [VLog ''  - fetching dep: %s (%s)'' [DepName dep, Hash dep],
                       VLog ''  - checking in global namespace (%s)'' [Join [globalPath e, Hash dep]]])"
    if "fs (Join [pkgdir, Hash dep]) = Inl err" "fs (Join [globalPath e, Hash dep]) = Inr cpkg"
    for err cpkg
    using that by (simp add: loadDep_def Let_def)
  have failed: "loadDep fs e dep pkgdir out
             = (Inl (Errorf (''failed to find package: '' @ gerr)),
                out @ [VLog ''  - fetching dep: %s (%s)'' [DepName dep, Hash dep],
                       VLog ''  - checking in global namespace (%s)'' [Join [globalPath e, Hash dep]]])"
    if "fs (Join [pkgdir, Hash dep]) = Inl err" "fs (Join [globalPath e, Hash dep]) = Inl gerr"
    for err gerr
    using that by (simp add: loadDep_def Let_def)
  have caller: "buildRewriteMapping_loop n fs e pkg (dep # deps) pkgdir (m, out) undo
             = Some (Inl (LoadingDep (DepName dep) (Name pkg)
                            (Errorf (''failed to find package: '' @ gerr))),
                     (m, out @ [VLog ''  - fetching dep: %s (%s)'' [DepName dep, Hash dep],
                                VLog ''  - checking in global namespace (%s)''
                                  [Join [globalPath e, Hash dep]]]))"
    if "fs (Join [pkgdir, Hash dep]) = Inl err" "fs (Join [globalPath e, Hash dep]) = Inl gerr"
    for err gerr
    using failed [OF that] by simp
  from found fallback failed caller show ?thesis by blast
qed

theorem loadDep_two_tier_witness:
  "scenario_fs (Join [''/proj/vendor/gx/ipfs'', ''Qm1''])
     = Inl ''open /proj/vendor/gx/ipfs/Qm1: no such file or directory''
   \<and> scenario_fs (Join [''vendor/gx/ipfs'', ''Qm1'']) = Inr pkg_b
   \<and> loadDep scenario_fs scenario_env \<lparr>DepName = ''b'', Hash = ''Qm1'', Version = ''1.0.0''\<rparr>
        ''vendor/gx/ipfs'' []
     = (Inr pkg_b, [VLog ''  - fetching dep: %s (%s)'' [''b'', ''Qm1'']])
   \<and> Join [globalPath \<lparr>GOPATH = ''/go'', cwd = ''/proj''\<rparr>, ''Qm7''] = ''/go/src/gx/ipfs/Qm7''
   \<and> loadDep (\<lambda>dir. if dir = ''/go/src/gx/ipfs/Qm7'' then Inr pkg_y else scenario_fs dir)
        scenario_env \<lparr>DepName = ''y'', Hash = ''Qm7'', Version = ''1.0.0''\<rparr>
        ''/proj/vendor/gx/ipfs'' []
     = (Inr pkg_y,
        [VLog ''  - fetching dep: %s (%s)'' [''y'', ''Qm7''],
         VLog ''  - checking in global namespace (%s)'' [''/go/src/gx/ipfs/Qm7'']])
   \<and> loadDep scenario_fs scenario_env \<lparr>DepName = ''c'', Hash = ''Qm3'', Version = ''1.0.0''\<rparr>
        ''/proj/vendor/gx/ipfs'' []
     = (Inl (Errorf ''failed to find package: open /go/src/gx/ipfs/Qm3: no such file or directory''),
        [VLog ''  - fetching dep: %s (%s)'' [''c'', ''Qm3''],
         VLog ''  - checking in global namespace (%s)'' [''/go/src/gx/ipfs/Qm3'']])
   \<and> buildRewriteMapping_loop 0 scenario_fs scenario_env failing_root
        [\<lparr>DepName = ''c'', Hash = ''Qm3'', Version = ''1.0.0''\<rparr>] ''/proj/vendor/gx/ipfs''
        (Map.empty, []) False
     = Some (Inl (LoadingDep ''c'' ''P''
                   (Errorf ''failed to find package: open /go/src/gx/ipfs/Qm3: no such file or directory'')),
             (Map.empty,
              [VLog ''  - fetching dep: %s (%s)'' [''c'', ''Qm3''],
               VLog ''  - checking in global namespace (%s)'' [''/go/src/gx/ipfs/Qm3'']]))"
proof -
  let ?fs = "\<lambda>dir. if dir = ''/go/src/gx/ipfs/Qm7'' then Inr pkg_y else scenario_fs dir"
  let ?d1 = "\<lparr>DepName = ''b'', Hash = ''Qm1'', Version = ''1.0.0''\<rparr>"
  let ?d7 = "\<lparr>DepName = ''y'', Hash = ''Qm7'', Version = ''1.0.0''\<rparr>"
  let ?d3 = "\<lparr>DepName = ''c'', Hash = ''Qm3'', Version = ''1.0.0''\<rparr>"
  have a: "scenario_fs (Join [''/proj/vendor/gx/ipfs'', ''Qm1''])
             = Inl ''open /proj/vendor/gx/ipfs/Qm1: no such file or directory''"
    by (simp add: scenario_fs_def path_eval)
  have l1: "scenario_fs (Join [''vendor/gx/ipfs'', Hash ?d1]) = Inr pkg_b"
    by (simp add: scenario_fs_def path_eval)
  have g: "Join [globalPath \<lparr>GOPATH = ''/go'', cwd = ''/proj''\<rparr>, ''Qm7''] = ''/go/src/gx/ipfs/Qm7''"
    by (simp add: path_eval)
  have l7: "?fs (Join [''/proj/vendor/gx/ipfs'', Hash ?d7])
              = Inl ''open /proj/vendor/gx/ipfs/Qm7: no such file or directory''"
    by (simp add: scenario_fs_def path_eval)
  have g7: "?fs (Join [globalPath scenario_env, Hash ?d7]) = Inr pkg_y"
    by (simp add: scenario_env_def path_eval)
  have l3: "scenario_fs (Join [''/proj/vendor/gx/ipfs'', Hash ?d3])
              = Inl ''open /proj/vendor/gx/ipfs/Qm3: no such file or directory''"
    by (simp add: scenario_fs_def path_eval)
  have g3: "scenario_fs (Join [globalPath scenario_env, Hash ?d3])
              = Inl ''open /go/src/gx/ipfs/Qm3: no such file or directory''"
    by (simp add: scenario_fs_def scenario_env_def path_eval)
  from loadDep_two_tier
         [where fs = scenario_fs and pkgdir = "''vendor/gx/ipfs''" and dep = ?d1
            and e = scenario_env and out = "[]", THEN conjunct1, rule_format, OF l1]
  have r1: "loadDep scenario_fs scenario_env ?d1 ''vendor/gx/ipfs'' []
              = (Inr pkg_b, [VLog ''  - fetching dep: %s (%s)'' [''b'', ''Qm1'']])"
    by simp
  from loadDep_two_tier
         [where fs = ?fs and pkgdir = "''/proj/vendor/gx/ipfs''" and dep = ?d7
            and e = scenario_env and out = "[]", THEN conjunct2, THEN conjunct1, rule_format,
          OF conjI, OF l7 g7]
  have r7: "loadDep ?fs scenario_env ?d7 ''/proj/vendor/gx/ipfs'' []
              = (Inr pkg_y,
                 [VLog ''  - fetching dep: %s (%s)'' [''y'', ''Qm7''],
                  VLog ''  - checking in global namespace (%s)'' [''/go/src/gx/ipfs/Qm7'']])"
    by (simp add: scenario_env_def path_eval)
  note t3 = loadDep_two_tier
         [where fs = scenario_fs and pkgdir = "''/proj/vendor/gx/ipfs''" and dep = ?d3
            and e = scenario_env and out = "[]" and n = 0 and pkg = failing_root and deps = "[]"
            and m = Map.empty and undo = False,
          THEN conjunct2, THEN conjunct2, rule_format, OF conjI, OF l3 g3]
  from t3 have r3: "loadDep scenario_fs scenario_env ?d3 ''/proj/vendor/gx/ipfs'' []
              = (Inl (Errorf ''failed to find package: open /go/src/gx/ipfs/Qm3: no such file or directory''),
                 [VLog ''  - fetching dep: %s (%s)'' [''c'', ''Qm3''],
                  VLog ''  - checking in global namespace (%s)'' [''/go/src/gx/ipfs/Qm3'']])"
    by (simp add: scenario_env_def path_eval)
  from t3 have c3: "buildRewriteMapping_loop 0 scenario_fs scenario_env failing_root [?d3]
          ''/proj/vendor/gx/ipfs'' (Map.empty, []) False
        = Some (Inl (LoadingDep ''c'' ''P''
                   (Errorf ''failed to find package: open /go/src/gx/ipfs/Qm3: no such file or directory'')),
             (Map.empty,
              [VLog ''  - fetching dep: %s (%s)'' [''c'', ''Qm3''],
               VLog ''  - checking in global namespace (%s)'' [''/go/src/gx/ipfs/Qm3'']]))"
    by (simp add: scenario_env_def failing_root_def path_eval)
  from a l1 r1 g r7 r3 c3 show ?thesis by simp
qed

section \<open>Properties of the Rewrite Applier\<close>

lemma Replace1_prefix: "prefix k s \<Longrightarrow> Replace1 s k v = v @ drop (length k) s"
  by (cases s) auto

lemma rwm_range_None:
  "\<forall>k\<in>dom m. \<not> prefix (k @ ''/'') s \<Longrightarrow> rwm_range ks m s = None"
  by (induction ks) (auto split: option.splits)

lemma rwm_range_find:
  "set ks \<subseteq> dom m \<Longrightarrow> List.find (\<lambda>k. prefix (k @ ''/'') s) ks = Some k \<Longrightarrow> m k = Some v
     \<Longrightarrow> rwm_range ks m s = Some (v @ drop (length k) s, m(s \<mapsto> v @ drop (length k) s))"
proof (induction ks)
  case Nil
  then show ?case by simp
next
  case (Cons a ks)
  from Cons.prems obtain w where w: "m a = Some w" by auto
  show ?case
  proof (cases "prefix (a @ ''/'') s")
    case True
    with Cons.prems have "a = k" by simp
    moreover from True have "prefix a s" by (rule append_prefixD)
    ultimately show ?thesis using True w Cons.prems(3)
      by (simp add: Replace1_prefix Let_def fun_upd_def)
  next
    case False
    with Cons w show ?thesis by simp
  qed
qed

lemma rwm_keeps:
  assumes "m x = Some y" "rwm ks m t = (r, m')"
  shows "m' x = Some y"
proof (cases "m t")
  case None
  with assms have "x \<noteq> t" by auto
  have "\<exists>w. m' = m(t \<mapsto> w)"
  proof (cases "rwm_range ks m t")
    case n: None
    with None assms show ?thesis by (auto simp: rwm_def)
  next
    case (Some p)
    have "rwm_range ks m t = Some p \<Longrightarrow> \<exists>w. snd p = m(t \<mapsto> w)"
      by (induction ks) (auto split: option.splits if_splits simp: Let_def)
    with Some None assms show ?thesis by (auto simp: rwm_def)
  qed
  with \<open>x \<noteq> t\<close> assms show ?thesis by auto
next
  case (Some a)
  with assms show ?thesis by (simp add: rwm_def)
qed

text \<open>
  C1, as stated, fails: the loop over the map returns at the first key it visits that
  matches, and the order of the visit is not the order of length. With the keys \<open>a\<close>
  and \<open>a/b\<close> visited in this order, the lookup of \<open>a/b/c\<close> is rewritten with the
  shorter key; the longest matching key \<open>a/b\<close> with its value \<open>y\<close> would give \<open>y/c\<close>.
\<close>

theorem rwm_longest_prefix_counterexample:
  "[''a'' \<mapsto> ''x'', ''a/b'' \<mapsto> ''y''] ''a/b/c'' = None
   \<and> prefix (''a'' @ ''/'') ''a/b/c'' \<and> prefix (''a/b'' @ ''/'') ''a/b/c''
   \<and> ''a/b/c'' = ''a/b'' @ ''/'' @ ''c''
   \<and> rwm [''a'', ''a/b''] [''a'' \<mapsto> ''x'', ''a/b'' \<mapsto> ''y''] ''a/b/c''
       = (''x/b/c'', [''a'' \<mapsto> ''x'', ''a/b'' \<mapsto> ''y'', ''a/b/c'' \<mapsto> ''x/b/c''])
   \<and> ''x/b/c'' \<noteq> ''y'' @ drop (length ''a/b'') ''a/b/c''
   \<and> ''x/b/c'' \<noteq> ''y'' @ ''/'' @ ''c''"
  by (simp add: rwm_def Let_def)

text \<open>
  C1, amended. For every table, every order \<open>ks\<close> in which the loop visits its keys and
  every string \<open>s\<close> that is not a key, if some key \<open>k\<close> makes \<open>k + "/"\<close> a prefix of
  \<open>s\<close>, the lookup returns \<open>value(k) + s[len(k):]\<close> for the first such key in the order
  of the visit (some matching key, not necessarily the longest) and inserts that result
  for \<open>s\<close> into the table; in particular, when \<open>(k \<rightarrow> v)\<close> is in the table,
  \<open>s = k + "/" + rest\<close> and \<open>k\<close> is the only matching key, the lookup returns
  \<open>v + "/" + rest\<close>.
\<close>

theorem rwm_prefix_substitution:
  assumes "set ks = dom m" "m s = None" "\<exists>k\<in>dom m. prefix (k @ ''/'') s"
  shows "(\<exists>k v. List.find (\<lambda>k. prefix (k @ ''/'') s) ks = Some k \<and> m k = Some v
            \<and> rwm ks m s = (v @ drop (length k) s, m(s \<mapsto> v @ drop (length k) s)))
       \<and> (\<forall>k v rest. m k = Some v \<and> s = k @ ''/'' @ rest
              \<and> (\<forall>k'\<in>dom m. prefix (k' @ ''/'') s \<longrightarrow> k' = k)
            \<longrightarrow> rwm ks m s = (v @ ''/'' @ rest, m(s \<mapsto> v @ ''/'' @ rest)))"
proof -
  from assms obtain k where k: "List.find (\<lambda>k. prefix (k @ ''/'') s) ks = Some k"
    by (cases "List.find (\<lambda>k. prefix (k @ ''/'') s) ks") (auto simp: find_None_iff)
  then have kin: "k \<in> set ks" and kp: "prefix (k @ ''/'') s"
    by (auto simp: find_Some_iff)
  with assms obtain v where v: "m k = Some v" by auto
  from assms k v have r: "rwm ks m s = (v @ drop (length k) s, m(s \<mapsto> v @ drop (length k) s))"
    using rwm_range_find [of ks m s k v] by (simp add: rwm_def)
  have u: "rwm ks m s = (w @ ''/'' @ rest, m(s \<mapsto> w @ ''/'' @ rest))"
    if "m k' = Some w" "s = k' @ ''/'' @ rest" "\<forall>k''\<in>dom m. prefix (k'' @ ''/'') s \<longrightarrow> k'' = k'"
    for k' w rest
  proof -
    from that kin kp assms have "k = k'" by auto
    with that v r show ?thesis by simp
  qed
  from k v r u show ?thesis by blast
qed

theorem rwm_prefix_substitution_witness:
  "set [''github.com/x/y''] = dom [''github.com/x/y'' \<mapsto> ''gx/ipfs/Qm123/y'']
   \<and> [''github.com/x/y'' \<mapsto> ''gx/ipfs/Qm123/y''] ''github.com/x/y/sub'' = None
   \<and> (\<exists>k\<in>dom [''github.com/x/y'' \<mapsto> ''gx/ipfs/Qm123/y'']. prefix (k @ ''/'') ''github.com/x/y/sub'')
   \<and> rwm [''github.com/x/y''] [''github.com/x/y'' \<mapsto> ''gx/ipfs/Qm123/y''] ''github.com/x/y/sub''
       = (''gx/ipfs/Qm123/y/sub'',
          [''github.com/x/y'' \<mapsto> ''gx/ipfs/Qm123/y'', ''github.com/x/y/sub'' \<mapsto> ''gx/ipfs/Qm123/y/sub''])"
proof -
  let ?m = "[''github.com/x/y'' \<mapsto> ''gx/ipfs/Qm123/y'']"
  let ?s = "''github.com/x/y/sub''"
  have a: "set [''github.com/x/y''] = dom ?m" by simp
  have b: "?m ?s = None" by simp
  have c: "\<exists>k\<in>dom ?m. prefix (k @ ''/'') ?s" by simp
  have d: "?m ''github.com/x/y'' = Some ''gx/ipfs/Qm123/y'' \<and> ?s = ''github.com/x/y'' @ ''/'' @ ''sub''
             \<and> (\<forall>k'\<in>dom ?m. prefix (k' @ ''/'') ?s \<longrightarrow> k' = ''github.com/x/y'')"
    by simp
  from rwm_prefix_substitution [OF a b c] d
  have "rwm [''github.com/x/y''] ?m ?s
          = (''gx/ipfs/Qm123/y'' @ ''/'' @ ''sub'', ?m(?s \<mapsto> ''gx/ipfs/Qm123/y'' @ ''/'' @ ''sub''))"
    by blast
  with a b c show ?thesis by simp
qed

text \<open>
  C7. For every table and every string \<open>s\<close> that is not a key and of which no
  \<open>k + "/"\<close>, for a key \<open>k\<close>, is a prefix, the lookup returns \<open>s\<close> and inserts
  \<open>(s \<rightarrow> s)\<close>; in the table that results, and in every table a later lookup of any
  string makes of it, the lookup of \<open>s\<close> takes the exact-match branch: it returns \<open>s\<close>
  and leaves the table as it is, whatever the order of the keys.
\<close>

theorem rwm_identity:
  assumes "m s = None" "\<forall>k\<in>dom m. \<not> prefix (k @ ''/'') s"
  shows "rwm ks m s = (s, m(s \<mapsto> s))
       \<and> (\<forall>ks'. rwm ks' (m(s \<mapsto> s)) s = (s, m(s \<mapsto> s)))
       \<and> (\<forall>m' ks' t r m''. m' s = Some s \<and> rwm ks' m' t = (r, m'')
            \<longrightarrow> m'' s = Some s \<and> rwm ks' m'' s = (s, m''))"
proof -
  from assms have "rwm ks m s = (s, m(s \<mapsto> s))"
    by (simp add: rwm_def rwm_range_None)
  moreover have "rwm ks' (m(s \<mapsto> s)) s = (s, m(s \<mapsto> s))" for ks'
    by (simp add: rwm_def)
  moreover have "m'' s = Some s \<and> rwm ks' m'' s = (s, m'')"
    if "m' s = Some s" "rwm ks' m' t = (r, m'')" for m' ks' t r m''
  proof -
    from that have "m'' s = Some s" by (rule rwm_keeps)
    then show ?thesis by (simp add: rwm_def)
  qed
  ultimately show ?thesis by blast
qed

theorem rwm_identity_witness:
  "[''github.com/x/y'' \<mapsto> ''gx/ipfs/Qm123/y''] ''fmt'' = None
   \<and> dom [''github.com/x/y'' \<mapsto> ''gx/ipfs/Qm123/y''] = {''github.com/x/y''}
   \<and> \<not> prefix (''github.com/x/y'' @ ''/'') ''fmt''
   \<and> rwm [''github.com/x/y''] [''github.com/x/y'' \<mapsto> ''gx/ipfs/Qm123/y''] ''fmt''
       = (''fmt'', [''github.com/x/y'' \<mapsto> ''gx/ipfs/Qm123/y'', ''fmt'' \<mapsto> ''fmt''])
   \<and> rwm [''fmt'', ''github.com/x/y''] [''github.com/x/y'' \<mapsto> ''gx/ipfs/Qm123/y'', ''fmt'' \<mapsto> ''fmt''] ''fmt''
       = (''fmt'', [''github.com/x/y'' \<mapsto> ''gx/ipfs/Qm123/y'', ''fmt'' \<mapsto> ''fmt''])"
proof -
  let ?m = "[''github.com/x/y'' \<mapsto> ''gx/ipfs/Qm123/y'']"
  have a: "?m ''fmt'' = None" by simp
  have b: "\<forall>k\<in>dom ?m. \<not> prefix (k @ ''/'') ''fmt''" by simp
  from rwm_identity [OF a b, of "[''github.com/x/y'']"]
  have "rwm [''github.com/x/y''] ?m ''fmt'' = (''fmt'', ?m(''fmt'' \<mapsto> ''fmt''))"
    and "rwm [''fmt'', ''github.com/x/y''] (?m(''fmt'' \<mapsto> ''fmt'')) ''fmt'' = (''fmt'', ?m(''fmt'' \<mapsto> ''fmt''))"
    by blast+
  with a show ?thesis by simp
qed

section \<open>Properties of the Rewrite Table Builder\<close>






















end
